theory Spec2Isabelle
  imports Complex_Main "HOL-Library.Sublist"
begin

section \<open>Data model of the archiver (src/main.ts)\<close>

text \<open>
  Strings are lists of code units. \<open>startsWith\<close> is \<^const>\<open>prefix\<close>,
  \<open>s.substring(n)\<close> is \<^term>\<open>drop n s\<close>, \<open>s.length\<close> is \<^const>\<open>length\<close>
  and a template literal is concatenation.
\<close>

datatype ConditionType = fileAge | regexPattern

record AutoArchiveCondition =
  type :: ConditionType
  "value" :: string

datatype LogicOperator = AND | OR

record AutoArchiveRule =
  rule_id :: string
  enabled :: bool
  folderPath :: string
  conditions :: "AutoArchiveCondition list"
  logicOperator :: LogicOperator

record SimpleArchiverSettings =
  archiveFolder :: string
  autoArchiveRules :: "AutoArchiveRule list"
  autoArchiveFrequency :: int

record ArchiveResult =
  success :: bool
  message :: string

text \<open>
  The host's \<open>TAbstractFile\<close>: a \<open>TFile\<close> or a \<open>TFolder\<close>, each with its
  \<open>path\<close>, its \<open>name\<close> and the path of its \<open>parent\<close> folder (\<open>None\<close> when
  \<open>parent\<close> is \<open>null\<close>); a folder also lists its direct \<open>children\<close>, a
  file has none.
\<close>

datatype TAbstractFile =
    TFile (path: string) (name: string) (parent: "string option")
  | TFolder (path: string) (name: string) (parent: "string option")
      (children: "TAbstractFile list")
  where "children (TFile p n q) = []"

fun isTFile :: "TAbstractFile \<Rightarrow> bool" where
  "isTFile (TFile _ _ _) = True"
| "isTFile (TFolder _ _ _ _) = False"

section \<open>isFileArchived\<close>

definition isFileArchived :: "SimpleArchiverSettings \<Rightarrow> TAbstractFile \<Rightarrow> bool" where
  "isFileArchived settings file = prefix (archiveFolder settings) (path file)"

text \<open>
  The contract of the specification, in its own words: \<open>p\<close> starts with \<open>r\<close> as a
  path-segment prefix, that is, \<open>p\<close> equals \<open>r\<close> or begins with \<open>r\<close> followed by
  a slash.
\<close>

definition spec_isArchived :: "string \<Rightarrow> string \<Rightarrow> bool" where
  "spec_isArchived p r = (p = r \<or> prefix (r @ ''/'') p)"

section \<open>Path normalisation\<close>

text \<open>
  Modelled from the spec: \<open>normalizePath\<close> is a function of the host's API and is not
  part of src/main.ts. The specification says of it that all paths are normalized before
  use, with no redundant separators, no leading and no trailing separator. The model
  replaces every run of separators (slash or backslash) by one slash, removes the slashes
  at both ends, and writes the vault root, whose path is empty after that, as a single
  slash.
\<close>

definition isSeparator :: "char \<Rightarrow> bool" where
  "isSeparator c = (c = CHR ''/'' \<or> c = CHR 0x5C)"

fun collapseSeparators :: "string \<Rightarrow> string" where
  "collapseSeparators [] = []"
| "collapseSeparators [c] = [if isSeparator c then CHR ''/'' else c]"
| "collapseSeparators (c # d # cs) =
     (if isSeparator c \<and> isSeparator d then collapseSeparators (d # cs)
      else (if isSeparator c then CHR ''/'' else c) # collapseSeparators (d # cs))"

definition stripSlashes :: "string \<Rightarrow> string" where
  "stripSlashes s =
     rev (dropWhile (\<lambda>c. c = CHR ''/'') (rev (dropWhile (\<lambda>c. c = CHR ''/'') s)))"

text \<open>
  Modelled from the spec: \<open>normalizePath\<close> itself, the two steps above in sequence.
\<close>

definition normalizePath :: "string \<Rightarrow> string" where
  "normalizePath p =
     (let s = stripSlashes (collapseSeparators p) in if s = [] then ''/'' else s)"

text \<open>
  The normal form of the specification's data model: a non-empty path without a
  backslash, without a slash at either end and without two slashes in a row. These are
  the fixed points of \<open>normalizePath\<close> other than the root (lemma
  \<open>normalized_iff\<close>).
\<close>

fun noDuplicateSeparators :: "string \<Rightarrow> bool" where
  "noDuplicateSeparators [] = True"
| "noDuplicateSeparators [c] = (c \<noteq> CHR 0x5C)"
| "noDuplicateSeparators (c # d # cs) =
     (c \<noteq> CHR 0x5C \<and> \<not> (c = CHR ''/'' \<and> d = CHR ''/'') \<and> noDuplicateSeparators (d # cs))"

definition normalized :: "string \<Rightarrow> bool" where
  "normalized p =
     (p \<noteq> [] \<and> hd p \<noteq> CHR ''/'' \<and> last p \<noteq> CHR ''/'' \<and> noDuplicateSeparators p)"


section \<open>The host's capabilities\<close>

text \<open>
  The storage, the clock, the regular-expression engine and the user are outside
  src/main.ts. They are parameters of the model: a record of functions over a vault
  state \<open>'v\<close> that the theorems below leave arbitrary. A storage operation either
  completes or throws with an error text, and leaves a vault state in both cases. The
  clock is read from the state: it stands still while one rule is evaluated.
\<close>

datatype 'v io = Ok 'v | Err string 'v

record Stat =
  mtime :: int

datatype PromptChoice = ClickYes | ClickNo | Dismissed

record 'v host =
  getAbstractFileByPath :: "'v \<Rightarrow> string \<Rightarrow> TAbstractFile option"
  getFolderByPath :: "'v \<Rightarrow> string \<Rightarrow> TAbstractFile option"
  createFolder :: "'v \<Rightarrow> string \<Rightarrow> 'v io"
  renameFile :: "'v \<Rightarrow> TAbstractFile \<Rightarrow> string \<Rightarrow> 'v io"
  trashFile :: "'v \<Rightarrow> TAbstractFile \<Rightarrow> 'v io"
  stat :: "'v \<Rightarrow> string \<Rightarrow> Stat option"
  dateNow :: "'v \<Rightarrow> int"
  newRegExp :: "string \<Rightarrow> (string \<Rightarrow> bool) option"
  promptChoice :: "'v \<Rightarrow> string \<Rightarrow> string \<Rightarrow> PromptChoice"

text \<open>
  A promise settles with a value, rejects with an error, or stays pending for ever (a
  prompt that is closed without a click never calls \<open>resolve\<close>).
\<close>

datatype 'a outcome = Returned 'a | Thrown string | Pending

text \<open>
  \<open>SimpleArchiverPromptModal\<close>: the first button runs \<open>callback\<close>, the second
  \<open>cancelCallback\<close>; closing the modal runs neither.
\<close>

definition SimpleArchiverPromptModal :: "PromptChoice \<Rightarrow> 'r \<Rightarrow> 'r \<Rightarrow> 'r \<Rightarrow> 'r" where
  "SimpleArchiverPromptModal choice callback cancelCallback unsettled =
     (case choice of ClickYes \<Rightarrow> callback | ClickNo \<Rightarrow> cancelCallback | Dismissed \<Rightarrow> unsettled)"

text \<open>
  Inside the \<open>Replace\<close> callback nothing catches an exception, so a throw there leaves
  the promise of the enclosing operation pending.
\<close>

fun resolve :: "ArchiveResult outcome \<times> 'v \<Rightarrow> ArchiveResult outcome \<times> 'v" where
  "resolve (Returned response, v) = (Returned response, v)"
| "resolve (Thrown e, v) = (Pending, v)"
| "resolve (Pending, v) = (Pending, v)"

section \<open>JavaScript's parseInt\<close>

text \<open>
  \<open>parseInt(string)\<close> without a radix: leading white space is skipped, one sign is
  read, a prefix \<open>0x\<close> selects radix 16, and the longest run of digits that follows is
  the value; \<open>NaN\<close> (here \<open>None\<close>) when that run is empty. The result is a
  Number, a double: \<open>toNumber\<close> rounds the integer that was read to the nearest
  integer a double holds, with 53 significant bits and ties to the even significand, so
  that \<open>9007199254740993\<close> is read as \<open>9007199254740992\<close>. An integer of
  magnitude below \<open>2 ^ 53\<close> is unchanged. An integer that rounds to \<open>2 ^ 1024\<close>
  or more is \<open>Infinity\<close> in JavaScript; the model keeps the rounded integer, which
  is above every age that a host can report, as \<open>Infinity\<close> is.
\<close>

fun bitLength :: "nat \<Rightarrow> nat" where
  "bitLength 0 = 0"
| "bitLength (Suc n) = Suc (bitLength (Suc n div 2))"

definition toNumber :: "int \<Rightarrow> int" where
  "toNumber n =
     (let m = nat \<bar>n\<bar> in
      if m < 2 ^ 53 then n
      else
        (let e = bitLength m - 53;
             q = m div 2 ^ e;
             r = m mod 2 ^ e;
             q' = (if r > 2 ^ (e - 1) \<or> (r = 2 ^ (e - 1) \<and> odd q) then q + 1 else q)
         in sgn n * int (q' * 2 ^ e)))"

text \<open>\<open>Number.isSafeInteger\<close>: the integers that doubles count without a gap.\<close>

definition isSafeInteger :: "int \<Rightarrow> bool" where
  "isSafeInteger n = (\<bar>n\<bar> \<le> 2 ^ 53 - 1)"

definition isWhiteSpace :: "char \<Rightarrow> bool" where
  "isWhiteSpace c =
     (c \<in> set [CHR 0x09, CHR 0x0A, CHR 0x0B, CHR 0x0C, CHR 0x0D, CHR 0x20, CHR 0xA0])"

definition digitValue :: "char \<Rightarrow> nat option" where
  "digitValue c =
     (let n = (of_char c :: nat) in
      if 48 \<le> n \<and> n \<le> 57 then Some (n - 48)
      else if 97 \<le> n \<and> n \<le> 122 then Some (n - 87)
      else if 65 \<le> n \<and> n \<le> 90 then Some (n - 55)
      else None)"

definition isRadixDigit :: "nat \<Rightarrow> char \<Rightarrow> bool" where
  "isRadixDigit R c = (case digitValue c of None \<Rightarrow> False | Some d \<Rightarrow> d < R)"

definition digitsToInteger :: "nat \<Rightarrow> string \<Rightarrow> nat" where
  "digitsToInteger R Z =
     foldl (\<lambda>a c. a * R + (case digitValue c of None \<Rightarrow> 0 | Some d \<Rightarrow> d)) 0 Z"

definition parseInt :: "string \<Rightarrow> int option" where
  "parseInt string =
     (let S = dropWhile isWhiteSpace string;
          sign = (if S \<noteq> [] \<and> hd S = CHR ''-'' then - 1 else (1::int));
          S1 = (if S \<noteq> [] \<and> (hd S = CHR ''+'' \<or> hd S = CHR ''-'') then tl S else S);
          stripPrefix = (prefix ''0x'' S1 \<or> prefix ''0X'' S1);
          R = (if stripPrefix then 16 else 10);
          S2 = (if stripPrefix then drop 2 S1 else S1);
          Z = takeWhile (isRadixDigit R) S2
      in if Z = [] then None else Some (toNumber (sign * int (digitsToInteger R Z))))"

section \<open>Rule evaluation\<close>

text \<open>
  \<open>evaluateCondition\<close> returns its verdict together with the lines it writes with
  \<open>console.error\<close>. The age in days is the quotient of the age in milliseconds by
  \<open>1000 * 60 * 60 * 24\<close>, taken in the reals. JavaScript rounds the difference and
  the quotient to doubles; the rounded quotient compares with the parsed value as the real
  one does while the clock, the modification time, their difference and the parsed value
  are safe integers, and the theorem on the verdict of an age condition assumes that.
\<close>

definition evaluateCondition ::
  "'v host \<Rightarrow> 'v \<Rightarrow> TAbstractFile \<Rightarrow> AutoArchiveCondition \<Rightarrow> bool \<times> string list" where
  "evaluateCondition h v file condition =
     (case type condition of
        fileAge \<Rightarrow>
          (case parseInt (value condition) of
             None \<Rightarrow> (False, [])
           | Some ageInDays \<Rightarrow>
               (case stat h v (path file) of
                  None \<Rightarrow> (False, [])
                | Some stats \<Rightarrow>
                    (let fileAgeMs = dateNow h v - mtime stats;
                         fileAgeDays = real_of_int fileAgeMs / (1000 * 60 * 60 * 24)
                     in (fileAgeDays \<ge> real_of_int ageInDays, []))))
      | regexPattern \<Rightarrow>
          (case newRegExp h (value condition) of
             Some regex \<Rightarrow> (regex (name file), [])
           | None \<Rightarrow>
               (False, [''Invalid regex pattern in auto-archive rule: '' @ value condition])))"

fun evaluateOR ::
  "'v host \<Rightarrow> 'v \<Rightarrow> TAbstractFile \<Rightarrow> AutoArchiveCondition list \<Rightarrow> bool \<times> string list" where
  "evaluateOR h v file [] = (False, [])"
| "evaluateOR h v file (condition # rest) =
     (case evaluateCondition h v file condition of
        (True, errors) \<Rightarrow> (True, errors)
      | (False, errors) \<Rightarrow>
          (case evaluateOR h v file rest of (b, errors') \<Rightarrow> (b, errors @ errors')))"

fun evaluateAND ::
  "'v host \<Rightarrow> 'v \<Rightarrow> TAbstractFile \<Rightarrow> AutoArchiveCondition list \<Rightarrow> bool \<times> string list" where
  "evaluateAND h v file [] = (True, [])"
| "evaluateAND h v file (condition # rest) =
     (case evaluateCondition h v file condition of
        (False, errors) \<Rightarrow> (False, errors)
      | (True, errors) \<Rightarrow>
          (case evaluateAND h v file rest of (b, errors') \<Rightarrow> (b, errors @ errors')))"

definition evaluateAutoArchiveRule ::
  "'v host \<Rightarrow> SimpleArchiverSettings \<Rightarrow> 'v \<Rightarrow> TAbstractFile \<Rightarrow> AutoArchiveRule
     \<Rightarrow> bool \<times> string list" where
  "evaluateAutoArchiveRule h settings v file rule =
     (if isFileArchived settings file then (False, [])
      else if length (conditions rule) = 0 then (False, [])
      else if logicOperator rule = OR then evaluateOR h v file (conditions rule)
      else evaluateAND h v file (conditions rule))"

text \<open>
  The specification's evaluation of all conditions, without short circuit, to compare
  with: every condition is evaluated, then the verdicts are combined.
\<close>

definition spec_evaluateAllConditions ::
  "'v host \<Rightarrow> 'v \<Rightarrow> TAbstractFile \<Rightarrow> AutoArchiveRule \<Rightarrow> bool" where
  "spec_evaluateAllConditions h v file rule =
     (let verdicts = map (\<lambda>c. fst (evaluateCondition h v file c)) (conditions rule)
      in if logicOperator rule = OR then foldr (\<or>) verdicts False
         else foldr (\<and>) verdicts True)"

section \<open>Archiving and unarchiving\<close>

text \<open>
  The text of \<open>file.parent?.path\<close> inside a template literal: the parent's path, or
  the word \<open>undefined\<close> when there is no parent.
\<close>

definition parentPathText :: "TAbstractFile \<Rightarrow> string" where
  "parentPathText file = (case parent file of None \<Rightarrow> ''undefined'' | Some p \<Rightarrow> p)"

text \<open>The paths that \<open>archiveFile\<close> and \<open>moveFileToArchive\<close> compute.\<close>

definition archiveFile_destinationFilePath ::
  "SimpleArchiverSettings \<Rightarrow> TAbstractFile \<Rightarrow> string" where
  "archiveFile_destinationFilePath settings file =
     normalizePath (archiveFolder settings @ ''/'' @ path file)"

definition moveFileToArchive_destinationPath ::
  "SimpleArchiverSettings \<Rightarrow> TAbstractFile \<Rightarrow> string" where
  "moveFileToArchive_destinationPath settings file =
     normalizePath (archiveFolder settings @ ''/'' @ parentPathText file)"

definition moveFileToArchive_destinationFilePath ::
  "SimpleArchiverSettings \<Rightarrow> TAbstractFile \<Rightarrow> string" where
  "moveFileToArchive_destinationFilePath settings file =
     normalizePath (moveFileToArchive_destinationPath settings file @ ''/'' @ name file)"

definition moveFileToArchive ::
  "'v host \<Rightarrow> SimpleArchiverSettings \<Rightarrow> 'v \<Rightarrow> TAbstractFile \<Rightarrow> ArchiveResult outcome \<times> 'v" where
  "moveFileToArchive h settings v file =
     (let destinationPath = moveFileToArchive_destinationPath settings file;
          created = (if getFolderByPath h v destinationPath = None
                     then createFolder h v destinationPath else Ok v)
      in case created of
           Err e v1 \<Rightarrow> (Thrown e, v1)
         | Ok v1 \<Rightarrow>
             (case renameFile h v1 file (moveFileToArchive_destinationFilePath settings file) of
                Ok v2 \<Rightarrow>
                  (Returned \<lparr>success = True, message = name file @ '' archived successfully''\<rparr>, v2)
              | Err error v2 \<Rightarrow>
                  (Returned \<lparr>success = False,
                     message = ''Unable to archive '' @ name file @ '': '' @ error\<rparr>, v2)))"

definition archiveFile ::
  "'v host \<Rightarrow> SimpleArchiverSettings \<Rightarrow> 'v \<Rightarrow> TAbstractFile \<Rightarrow> ArchiveResult outcome \<times> 'v" where
  "archiveFile h settings v file =
     (if isFileArchived settings file
      then (Returned \<lparr>success = False, message = ''Item is already archived''\<rparr>, v)
      else
        (case getAbstractFileByPath h v (archiveFile_destinationFilePath settings file) of
           Some existingItem \<Rightarrow>
             SimpleArchiverPromptModal
               (promptChoice h v ''Replace archived item?''
                  (''An item called \"'' @ name file @
                   ''\" already exists in the destination folder in the archive. Would you like to replace it?''))
               (case trashFile h v existingItem of
                  Err e v1 \<Rightarrow> (Pending, v1)
                | Ok v1 \<Rightarrow> resolve (moveFileToArchive h settings v1 file))
               (Returned \<lparr>success = False, message = ''Archive operation cancelled''\<rparr>, v)
               (Pending, v)
         | None \<Rightarrow> moveFileToArchive h settings v file))"

text \<open>
  \<open>s.lastIndexOf(c)\<close> is \<open>-1\<close> when \<open>c\<close> does not occur, and
  \<open>s.substring(0, k)\<close> reads a negative \<open>k\<close> as \<open>0\<close>.
\<close>

definition lastIndexOf :: "string \<Rightarrow> char \<Rightarrow> int" where
  "lastIndexOf s c =
     (if c \<in> set s then int (length s) - 1 - int (length (takeWhile (\<lambda>x. x \<noteq> c) (rev s)))
      else - 1)"

definition originalPath :: "SimpleArchiverSettings \<Rightarrow> TAbstractFile \<Rightarrow> string" where
  "originalPath settings file = drop (length (archiveFolder settings) + 1) (path file)"

definition originalParentPath :: "SimpleArchiverSettings \<Rightarrow> TAbstractFile \<Rightarrow> string" where
  "originalParentPath settings file =
     take (nat (lastIndexOf (originalPath settings file) (CHR ''/''))) (originalPath settings file)"

definition moveFileOutOfArchive ::
  "'v host \<Rightarrow> SimpleArchiverSettings \<Rightarrow> 'v \<Rightarrow> TAbstractFile \<Rightarrow> ArchiveResult outcome \<times> 'v" where
  "moveFileOutOfArchive h settings v file =
     (let created =
            (if originalParentPath settings file \<noteq> []
             then (if getFolderByPath h v (originalParentPath settings file) = None
                   then createFolder h v (normalizePath (originalParentPath settings file))
                   else Ok v)
             else Ok v)
      in case created of
           Err e v1 \<Rightarrow> (Thrown e, v1)
         | Ok v1 \<Rightarrow>
             (case renameFile h v1 file (normalizePath (originalPath settings file)) of
                Ok v2 \<Rightarrow>
                  (Returned \<lparr>success = True, message = name file @ '' unarchived successfully''\<rparr>, v2)
              | Err error v2 \<Rightarrow>
                  (Returned \<lparr>success = False,
                     message = ''Unable to unarchive '' @ name file @ '': '' @ error\<rparr>, v2)))"

definition unarchiveFile ::
  "'v host \<Rightarrow> SimpleArchiverSettings \<Rightarrow> 'v \<Rightarrow> TAbstractFile \<Rightarrow> ArchiveResult outcome \<times> 'v" where
  "unarchiveFile h settings v file =
     (if \<not> isFileArchived settings file
      then (Returned \<lparr>success = False, message = ''Item is not archived''\<rparr>, v)
      else
        (case getAbstractFileByPath h v (originalPath settings file) of
           Some existingItem \<Rightarrow>
             SimpleArchiverPromptModal
               (promptChoice h v ''Replace existing item?''
                  (''An item called \"'' @ name file @
                   ''\" already exists in the original location. Would you like to replace it?''))
               (case trashFile h v existingItem of
                  Err e v1 \<Rightarrow> (Pending, v1)
                | Ok v1 \<Rightarrow> resolve (moveFileOutOfArchive h settings v1 file))
               (Returned \<lparr>success = False, message = ''Unarchive operation cancelled''\<rparr>, v)
               (Pending, v)
         | None \<Rightarrow> moveFileOutOfArchive h settings v file))"

section \<open>The auto-archive sweep\<close>






section \<open>Validation of the archive folder setting\<close>

text \<open>
  \<open>validateArchiveFolderName\<close> rejects a value that the regular expression
  \<open>/^\.|[:/\\]\.|:/\<close> matches: one that starts with a dot, or has a dot right after a
  colon, a slash or a backslash, or has a colon.
\<close>

fun dotAfterSeparator :: "string \<Rightarrow> bool" where
  "dotAfterSeparator (c # d # cs) =
     ((c \<in> set [CHR '':'', CHR ''/'', CHR 0x5C] \<and> d = CHR ''.'') \<or> dotAfterSeparator (d # cs))"
| "dotAfterSeparator _ = False"

definition validateArchiveFolderName :: "string \<Rightarrow> bool" where
  "validateArchiveFolderName v =
     (\<not> (prefix ''.'' v \<or> dotAfterSeparator v \<or> CHR '':'' \<in> set v))"

definition setArchiveFolder ::
  "SimpleArchiverSettings \<Rightarrow> string \<Rightarrow> bool \<times> SimpleArchiverSettings" where
  "setArchiveFolder settings v =
     (if \<not> validateArchiveFolderName v then (False, settings)
      else (True, settings\<lparr>archiveFolder := v\<rparr>))"

section \<open>A small concrete host\<close>

text \<open>
  A host to run the operations on: the vault is the list of its items, every item was
  last modified at time \<open>0\<close>, the clock reads \<open>now\<close>, the user always makes the
  same \<open>choice\<close>, and the pattern engine knows one malformed pattern, an opening
  bracket alone, and takes every other pattern as text to be found in the name.
\<close>

fun occursIn :: "string \<Rightarrow> string \<Rightarrow> bool" where
  "occursIn pat [] = (pat = [])"
| "occursIn pat (c # cs) = (prefix pat (c # cs) \<or> occursIn pat cs)"

definition parentOfPath :: "string \<Rightarrow> string" where
  "parentOfPath p =
     (if CHR ''/'' \<in> set p then take (nat (lastIndexOf p (CHR ''/''))) p else ''/'')"

definition baseName :: "string \<Rightarrow> string" where
  "baseName p = drop (nat (lastIndexOf p (CHR ''/'') + 1)) p"

fun movedTo :: "TAbstractFile \<Rightarrow> string \<Rightarrow> TAbstractFile" where
  "movedTo (TFile _ n _) p = TFile p n (Some (parentOfPath p))"
| "movedTo (TFolder _ n _ cs) p = TFolder p n (Some (parentOfPath p)) cs"

definition listHost :: "PromptChoice \<Rightarrow> int \<Rightarrow> (TAbstractFile list) host" where
  "listHost choice now =
     \<lparr>getAbstractFileByPath = (\<lambda>v p. find (\<lambda>f. path f = p) v),
      getFolderByPath = (\<lambda>v p. find (\<lambda>f. path f = p \<and> \<not> isTFile f) v),
      createFolder = (\<lambda>v p. Ok (v @ [TFolder p (baseName p) (Some (parentOfPath p)) []])),
      renameFile = (\<lambda>v f p.
         if find (\<lambda>g. path g = p) v \<noteq> None then Err ''Destination file already exists!'' v
         else Ok (map (\<lambda>g. if g = f then movedTo f p else g) v)),
      trashFile = (\<lambda>v f. Ok (removeAll f v)),
      stat = (\<lambda>v p. if find (\<lambda>f. path f = p) v \<noteq> None then Some \<lparr>mtime = 0\<rparr> else None),
      dateNow = (\<lambda>v. now),
      newRegExp = (\<lambda>source. if source = ''['' then None else Some (occursIn source)),
      promptChoice = (\<lambda>v title content. choice)\<rparr>"

definition DEFAULT_SETTINGS :: SimpleArchiverSettings where
  "DEFAULT_SETTINGS = \<lparr>archiveFolder = ''Archive'', autoArchiveRules = [], autoArchiveFrequency = 60\<rparr>"

section \<open>The age condition as the specification words it\<close>

text \<open>
  The specification's reading of a \<open>fileAge\<close> value: it parses to a non-negative
  integer, that is, it is a non-empty run of decimal digits; any other value is invalid
  and the condition never matches.
\<close>

definition spec_parseDays :: "string \<Rightarrow> nat option" where
  "spec_parseDays v =
     (if v \<noteq> [] \<and> list_all (isRadixDigit 10) v then Some (digitsToInteger 10 v) else None)"

definition spec_fileAge :: "int \<Rightarrow> int \<Rightarrow> string \<Rightarrow> bool" where
  "spec_fileAge now lastModifiedTime v =
     (case spec_parseDays v of
        None \<Rightarrow> False
      | Some days \<Rightarrow> real_of_int (now - lastModifiedTime) / (1000 * 60 * 60 * 24) \<ge> real days)"

text \<open>The host keeps the path of an item equal to its parent's path, a slash and its name;
  the items at the top of the vault have the root, \<open>/\<close>, as their parent.\<close>

definition insideParent :: "TAbstractFile \<Rightarrow> bool" where
  "insideParent file =
     (case parent file of
        None \<Rightarrow> False
      | Some p \<Rightarrow> path file = (if p = ''/'' then name file else p @ ''/'' @ name file))"

section \<open>Facts about path normalisation\<close>

lemma noDuplicateSeparators_Cons:
  "noDuplicateSeparators (c # cs) \<longleftrightarrow>
     c \<noteq> CHR 0x5C \<and> noDuplicateSeparators cs \<and>
     \<not> (c = CHR ''/'' \<and> cs \<noteq> [] \<and> hd cs = CHR ''/'')"
  by (cases cs) auto

lemma collapseSeparators_fixed:
  "noDuplicateSeparators p \<Longrightarrow> collapseSeparators p = p"
proof (induction p rule: collapseSeparators.induct)
  case (3 c d cs)
  from "3.prems" have "noDuplicateSeparators (d # cs)" and "c \<noteq> CHR 0x5C"
    and "\<not> (c = CHR ''/'' \<and> d = CHR ''/'')" and "d \<noteq> CHR 0x5C"
    by (auto simp: noDuplicateSeparators_Cons)
  then show ?case using 3 by (auto simp: isSeparator_def)
qed (auto simp: isSeparator_def)

lemma stripSlashes_fixed:
  assumes "p \<noteq> []" "hd p \<noteq> CHR ''/''" "last p \<noteq> CHR ''/''"
  shows "stripSlashes p = p"
proof -
  from assms have front: "dropWhile (\<lambda>c. c = CHR ''/'') p = p"
    by (cases p) auto
  from assms have "hd (rev p) \<noteq> CHR ''/''"
    by (simp add: hd_rev)
  with assms have behind: "dropWhile (\<lambda>c. c = CHR ''/'') (rev p) = rev p"
    by (cases "rev p") auto
  show ?thesis
    by (simp add: stripSlashes_def front behind)
qed

lemma normalizePath_fixed: "normalized p \<Longrightarrow> normalizePath p = p"
  by (simp add: normalized_def normalizePath_def collapseSeparators_fixed stripSlashes_fixed)

lemma noDuplicateSeparators_append:
  "noDuplicateSeparators (xs @ ys) \<longleftrightarrow>
     noDuplicateSeparators xs \<and> noDuplicateSeparators ys \<and>
     \<not> (xs \<noteq> [] \<and> ys \<noteq> [] \<and> last xs = CHR ''/'' \<and> hd ys = CHR ''/'')"
proof (induction xs rule: noDuplicateSeparators.induct)
  case 1
  then show ?case by simp
next
  case (2 c)
  then show ?case by (cases ys) auto
next
  case (3 c d cs)
  then show ?case by auto
qed

lemma normalized_join:
  assumes "normalized r" "normalized p"
  shows "normalized (r @ ''/'' @ p)"
  using assms
  by (auto simp: normalized_def noDuplicateSeparators_append noDuplicateSeparators_Cons hd_append)

lemma collapseSeparators_hd:
  "hd (collapseSeparators (d # cs)) = (if isSeparator d then CHR ''/'' else d)"
  by (induction cs arbitrary: d) auto

lemma collapseSeparators_not_Nil: "collapseSeparators (d # cs) \<noteq> []"
  by (induction cs arbitrary: d) auto

lemma noDuplicateSeparators_collapse: "noDuplicateSeparators (collapseSeparators p)"
proof (induction p rule: collapseSeparators.induct)
  case 1
  then show ?case by simp
next
  case (2 c)
  then show ?case by (simp add: isSeparator_def)
next
  case (3 c d cs)
  have ih: "noDuplicateSeparators (collapseSeparators (d # cs))"
    using 3 by (cases "isSeparator c \<and> isSeparator d") auto
  have step: "collapseSeparators (c # d # cs) =
     (if isSeparator c \<and> isSeparator d then collapseSeparators (d # cs)
      else (if isSeparator c then CHR ''/'' else c) # collapseSeparators (d # cs))"
    by simp
  show ?case
    unfolding step using ih
    by (auto simp: noDuplicateSeparators_Cons collapseSeparators_hd collapseSeparators_not_Nil
        isSeparator_def simp del: collapseSeparators.simps)
qed

lemma stripSlashes_decompose:
  "s = takeWhile (\<lambda>c. c = CHR ''/'') s @ stripSlashes s
         @ rev (takeWhile (\<lambda>c. c = CHR ''/'') (rev (dropWhile (\<lambda>c. c = CHR ''/'') s)))"
proof -
  let ?P = "\<lambda>c. c = CHR ''/''"
  let ?t = "dropWhile ?P s"
  have "rev (rev ?t) = rev (takeWhile ?P (rev ?t) @ dropWhile ?P (rev ?t))"
    by simp
  then have "?t = stripSlashes s @ rev (takeWhile ?P (rev ?t))"
    unfolding stripSlashes_def rev_append rev_rev_ident .
  then have "takeWhile ?P s @ ?t
               = takeWhile ?P s @ stripSlashes s @ rev (takeWhile ?P (rev ?t))"
    by (rule arg_cong)
  moreover have "s = takeWhile ?P s @ ?t"
    by simp
  ultimately show ?thesis
    by (rule trans[rotated])
qed

lemma noDuplicateSeparators_stripSlashes:
  assumes "noDuplicateSeparators s"
  shows "noDuplicateSeparators (stripSlashes s)"
proof -
  from assms have "noDuplicateSeparators (takeWhile (\<lambda>c. c = CHR ''/'') s @ stripSlashes s
         @ rev (takeWhile (\<lambda>c. c = CHR ''/'') (rev (dropWhile (\<lambda>c. c = CHR ''/'') s))))"
    by (rule subst[where P = noDuplicateSeparators, OF stripSlashes_decompose])
  then show ?thesis
    unfolding noDuplicateSeparators_append by blast
qed

lemma stripSlashes_ends:
  assumes "stripSlashes s \<noteq> []"
  shows "hd (stripSlashes s) \<noteq> CHR ''/''" "last (stripSlashes s) \<noteq> CHR ''/''"
proof -
  define t where "t = dropWhile (\<lambda>c. c = CHR ''/'') s"
  define u where "u = dropWhile (\<lambda>c. c = CHR ''/'') (rev t)"
  define w where "w = takeWhile (\<lambda>c. c = CHR ''/'') (rev t)"
  have strip: "stripSlashes s = rev u"
    by (simp add: stripSlashes_def t_def u_def)
  with assms have u: "u \<noteq> []"
    by simp
  then have "hd u \<noteq> CHR ''/''"
    unfolding u_def using hd_dropWhile[of "\<lambda>c. c = CHR ''/''" "rev t"] by blast
  with u show "last (stripSlashes s) \<noteq> CHR ''/''"
    unfolding strip by (simp add: last_rev)
  have "rev t = w @ u"
    unfolding w_def u_def by simp
  then have "rev (rev t) = rev (w @ u)"
    by (rule arg_cong)
  then have t: "t = rev u @ rev w"
    by simp
  with u have "t \<noteq> []"
    by simp
  then have "hd t \<noteq> CHR ''/''"
    unfolding t_def using hd_dropWhile[of "\<lambda>c. c = CHR ''/''" s] by blast
  moreover from u have "hd (rev u @ rev w) = hd (rev u)"
    by simp
  ultimately show "hd (stripSlashes s) \<noteq> CHR ''/''"
    unfolding strip t by simp
qed

lemma normalized_iff: "normalized p \<longleftrightarrow> normalizePath p = p \<and> p \<noteq> ''/''"
proof
  assume "normalized p"
  then show "normalizePath p = p \<and> p \<noteq> ''/''"
    by (auto simp: normalizePath_fixed normalized_def)
next
  assume a: "normalizePath p = p \<and> p \<noteq> ''/''"
  let ?s = "stripSlashes (collapseSeparators p)"
  from a have ne: "?s \<noteq> []"
    by (auto simp: normalizePath_def Let_def split: if_splits)
  with a have p: "p = ?s"
    by (simp add: normalizePath_def Let_def)
  have "normalized ?s"
    using ne stripSlashes_ends[OF ne]
      noDuplicateSeparators_stripSlashes[OF noDuplicateSeparators_collapse]
    by (simp add: normalized_def)
  with p show "normalized p"
    by simp
qed

section \<open>isFileArchived\<close>

lemma spec_isArchived_isFileArchived:
  "spec_isArchived (path file) (archiveFolder settings) \<Longrightarrow> isFileArchived settings file"
  by (auto simp: spec_isArchived_def isFileArchived_def prefix_def)

text \<open>
  C1. The claim: \<open>isFileArchived\<close> holds exactly when the path starts with the archive
  root as a path-segment prefix, so that \<open>ArchiveX/a.md\<close> is not archived under the root
  \<open>Archive\<close>. The code compares plain string prefixes: with the default settings it
  takes \<open>ArchiveX/a.md\<close> for archived, although the path-segment contract does not, and
  unarchiving that file moves it to \<open>a.md\<close> at the top of the vault.
\<close>

theorem isFileArchived_string_prefix:
  "isFileArchived DEFAULT_SETTINGS (TFile ''ArchiveX/a.md'' ''a.md'' (Some ''ArchiveX''))
   \<and> \<not> spec_isArchived ''ArchiveX/a.md'' (archiveFolder DEFAULT_SETTINGS)
   \<and> unarchiveFile (listHost ClickYes 0) DEFAULT_SETTINGS
          [TFile ''ArchiveX/a.md'' ''a.md'' (Some ''ArchiveX'')]
          (TFile ''ArchiveX/a.md'' ''a.md'' (Some ''ArchiveX''))
       = (Returned \<lparr>success = True, message = ''a.md unarchived successfully''\<rparr>,
          [TFile ''a.md'' ''a.md'' (Some ''/'')])"
  by (simp add: isFileArchived_def spec_isArchived_def DEFAULT_SETTINGS_def unarchiveFile_def
      listHost_def originalPath_def moveFileOutOfArchive_def originalParentPath_def lastIndexOf_def
      normalizePath_def stripSlashes_def isSeparator_def parentOfPath_def)

section \<open>Rule evaluation\<close>

text \<open>
  C4. \<open>evaluateAutoArchiveRule\<close> returns false whenever the file is already archived
  or the rule has no condition, whatever the logic operator. No condition is evaluated:
  the result is the same for every host, and nothing is written to the console.
\<close>

theorem evaluateAutoArchiveRule_archived_or_empty:
  assumes "isFileArchived settings file \<or> conditions rule = []"
  shows "evaluateAutoArchiveRule h settings v file rule = (False, [])"
  using assms by (auto simp: evaluateAutoArchiveRule_def)

theorem evaluateAutoArchiveRule_archived_or_empty_witness:
  "(isFileArchived DEFAULT_SETTINGS (TFile ''Archive/a.md'' ''a.md'' (Some ''Archive''))
      \<or> conditions \<lparr>rule_id = ''r1'', enabled = True, folderPath = ''Inbox'',
            conditions = [\<lparr>type = regexPattern, value = ''a''\<rparr>], logicOperator = OR\<rparr> = [])
   \<and> evaluateAutoArchiveRule (listHost ClickYes 0) DEFAULT_SETTINGS []
        (TFile ''Archive/a.md'' ''a.md'' (Some ''Archive''))
        \<lparr>rule_id = ''r1'', enabled = True, folderPath = ''Inbox'',
            conditions = [\<lparr>type = regexPattern, value = ''a''\<rparr>], logicOperator = OR\<rparr> = (False, [])"
proof -
  have archived: "isFileArchived DEFAULT_SETTINGS (TFile ''Archive/a.md'' ''a.md'' (Some ''Archive''))"
    by (simp add: isFileArchived_def DEFAULT_SETTINGS_def)
  show ?thesis
    using archived evaluateAutoArchiveRule_archived_or_empty
      [of DEFAULT_SETTINGS "TFile ''Archive/a.md'' ''a.md'' (Some ''Archive'')" _
         "listHost ClickYes 0" "[]"]
    by simp
qed

lemma evaluateOR_verdict:
  "fst (evaluateOR h v file cs) = (\<exists>c\<in>set cs. fst (evaluateCondition h v file c))"
  by (induction cs) (auto split: prod.splits bool.splits)

lemma evaluateAND_verdict:
  "fst (evaluateAND h v file cs) = (\<forall>c\<in>set cs. fst (evaluateCondition h v file c))"
  by (induction cs) (auto split: prod.splits bool.splits)

lemma foldr_disj: "foldr (\<or>) bs False = (\<exists>b\<in>set bs. b)"
  by (induction bs) auto

lemma foldr_conj: "foldr (\<and>) bs True = (\<forall>b\<in>set bs. b)"
  by (induction bs) auto

lemma spec_evaluateAllConditions_verdict:
  "spec_evaluateAllConditions h v file rule =
     (if logicOperator rule = OR then \<exists>c\<in>set (conditions rule). fst (evaluateCondition h v file c)
      else \<forall>c\<in>set (conditions rule). fst (evaluateCondition h v file c))"
  by (simp add: spec_evaluateAllConditions_def Let_def foldr_disj foldr_conj)

text \<open>
  C3. For a rule with at least one condition, and a file that is not archived: with
  \<open>AND\<close> the rule is true exactly when every condition matches the file, with
  \<open>OR\<close> exactly when at least one does, and the short-circuit loops give the verdict
  that evaluating all conditions gives. For a file that is already archived the same holds
  in the cases the claim names, a condition list with a non-matching condition under
  \<open>AND\<close> and one where all conditions fail under \<open>OR\<close>.
\<close>

theorem rule_logic:
  assumes "conditions rule \<noteq> []"
    and "\<not> isFileArchived settings file
         \<or> (logicOperator rule = AND \<and>
              (\<exists>c\<in>set (conditions rule). \<not> fst (evaluateCondition h v file c)))
         \<or> (logicOperator rule = OR \<and>
              (\<forall>c\<in>set (conditions rule). \<not> fst (evaluateCondition h v file c)))"
  shows "(logicOperator rule = AND \<longrightarrow>
            fst (evaluateAutoArchiveRule h settings v file rule) =
              (\<forall>c\<in>set (conditions rule). fst (evaluateCondition h v file c)))
       \<and> (logicOperator rule = OR \<longrightarrow>
            fst (evaluateAutoArchiveRule h settings v file rule) =
              (\<exists>c\<in>set (conditions rule). fst (evaluateCondition h v file c)))
       \<and> fst (evaluateAutoArchiveRule h settings v file rule) = spec_evaluateAllConditions h v file rule"
proof (cases "isFileArchived settings file")
  case False
  with assms(1) show ?thesis
    by (cases "logicOperator rule")
      (simp_all add: evaluateAutoArchiveRule_def evaluateOR_verdict evaluateAND_verdict
        spec_evaluateAllConditions_verdict)
next
  case True
  then have no: "fst (evaluateAutoArchiveRule h settings v file rule) = False"
    by (simp add: evaluateAutoArchiveRule_def)
  from True assms(2) show ?thesis
    unfolding no spec_evaluateAllConditions_verdict
    by (cases "logicOperator rule") auto
qed

theorem rule_logic_witness:
  "conditions \<lparr>rule_id = ''r1'', enabled = True, folderPath = ''Inbox'',
       conditions = [\<lparr>type = regexPattern, value = ''.md''\<rparr>, \<lparr>type = fileAge, value = ''7''\<rparr>],
       logicOperator = AND\<rparr> \<noteq> []
   \<and> \<not> isFileArchived DEFAULT_SETTINGS (TFile ''Inbox/a.md'' ''a.md'' (Some ''Inbox''))
   \<and> fst (evaluateAutoArchiveRule (listHost ClickYes 691200000) DEFAULT_SETTINGS
          [TFile ''Inbox/a.md'' ''a.md'' (Some ''Inbox'')]
          (TFile ''Inbox/a.md'' ''a.md'' (Some ''Inbox''))
          \<lparr>rule_id = ''r1'', enabled = True, folderPath = ''Inbox'',
             conditions = [\<lparr>type = regexPattern, value = ''.md''\<rparr>, \<lparr>type = fileAge, value = ''7''\<rparr>],
             logicOperator = AND\<rparr>)
   \<and> spec_evaluateAllConditions (listHost ClickYes 691200000)
          [TFile ''Inbox/a.md'' ''a.md'' (Some ''Inbox'')]
          (TFile ''Inbox/a.md'' ''a.md'' (Some ''Inbox''))
          \<lparr>rule_id = ''r1'', enabled = True, folderPath = ''Inbox'',
             conditions = [\<lparr>type = regexPattern, value = ''.md''\<rparr>, \<lparr>type = fileAge, value = ''7''\<rparr>],
             logicOperator = AND\<rparr>"
proof -
  let ?f = "TFile ''Inbox/a.md'' ''a.md'' (Some ''Inbox'')"
  let ?h = "listHost ClickYes 691200000"
  let ?r = "\<lparr>rule_id = ''r1'', enabled = True, folderPath = ''Inbox'',
             conditions = [\<lparr>type = regexPattern, value = ''.md''\<rparr>, \<lparr>type = fileAge, value = ''7''\<rparr>],
             logicOperator = AND\<rparr>"
  have a: "conditions ?r \<noteq> []" by simp
  have b: "\<not> isFileArchived DEFAULT_SETTINGS ?f"
    by (simp add: isFileArchived_def DEFAULT_SETTINGS_def)
  have c1: "fst (evaluateCondition ?h [?f] ?f \<lparr>type = regexPattern, value = ''.md''\<rparr>)"
    by (simp add: evaluateCondition_def listHost_def)
  have c2: "fst (evaluateCondition ?h [?f] ?f \<lparr>type = fileAge, value = ''7''\<rparr>)"
    by (simp add: evaluateCondition_def listHost_def parseInt_def isWhiteSpace_def
        isRadixDigit_def digitValue_def digitsToInteger_def toNumber_def)
  show ?thesis
    using a b c1 c2 rule_logic [of ?r DEFAULT_SETTINGS ?f ?h "[?f]"]
    by auto
qed

section \<open>The age condition\<close>

lemma digit_not_special:
  assumes "isRadixDigit 10 c"
  shows "\<not> isWhiteSpace c" "c \<noteq> CHR ''-''" "c \<noteq> CHR ''+''" "c \<noteq> CHR ''x''" "c \<noteq> CHR ''X''"
  using assms
  by (auto simp: isWhiteSpace_def isRadixDigit_def digitValue_def)

lemma toNumber_safe:
  assumes "isSafeInteger n"
  shows "toNumber n = n"
proof -
  from assms have "\<bar>n\<bar> < 2 ^ 53"
    by (simp add: isSafeInteger_def)
  then have "nat \<bar>n\<bar> < 2 ^ 53"
    by (simp add: nat_less_iff)
  then show ?thesis
    by (simp add: toNumber_def Let_def)
qed

lemma bitLength_double: "n > 0 \<Longrightarrow> bitLength (2 * n) = Suc (bitLength n)"
  by (cases n) auto

lemma bitLength_double1: "bitLength (2 * n + 1) = Suc (bitLength n)"
  using bitLength.simps(2)[of "2 * n"] by simp

lemma bitLength_numeral [simp]:
  "bitLength (numeral (Num.Bit0 k)) = Suc (bitLength (numeral k))"
  "bitLength (numeral (Num.Bit1 k)) = Suc (bitLength (numeral k))"
  "bitLength (numeral Num.One) = 1"
  using bitLength_double[of "numeral k"] bitLength_double1[of "numeral k"] bitLength.simps(2)[of 0]
  by simp_all

text \<open>The first integer that a double does not hold is read as its even neighbour.\<close>

lemma parseInt_rounds_example: "parseInt ''9007199254740993'' = Some 9007199254740992"
  by (simp add: parseInt_def isWhiteSpace_def isRadixDigit_def digitValue_def digitsToInteger_def
      toNumber_def Let_def)

lemma parseInt_digits:
  assumes "v \<noteq> []" "list_all (isRadixDigit 10) v"
  shows "parseInt v = Some (toNumber (int (digitsToInteger 10 v)))"
proof -
  from assms obtain c cs where v: "v = c # cs" by (cases v) auto
  with assms have c: "isRadixDigit 10 c" and cs: "list_all (isRadixDigit 10) cs" by auto
  have ws: "dropWhile isWhiteSpace v = v"
    using v c digit_not_special(1) by simp
  have nox: "\<not> prefix ''0x'' v" "\<not> prefix ''0X'' v"
    using v cs digit_not_special(4,5) by (cases cs; auto)+
  have tw: "takeWhile (isRadixDigit 10) v = v"
    using assms(2) by (simp add: list_all_iff)
  have sign: "hd v \<noteq> CHR ''-''" "hd v \<noteq> CHR ''+''"
    using v digit_not_special(2,3)[OF c] by simp_all
  show ?thesis
    unfolding parseInt_def Let_def ws
    by (simp add: assms(1) sign nox tw)
qed

text \<open>
  C5 says that a \<open>fileAge\<close> condition compares the age with the value parsed as a
  non-negative integer, and is false for every file when the value is not a number. As
  stated this fails: the value \<open>7days\<close> is not a non-negative integer, yet
  \<open>parseInt\<close> reads \<open>7\<close> from it, and the condition is true for a file modified
  eight days ago.
\<close>

theorem fileAge_trailing_text_counterexample:
  "stat (listHost ClickYes 691200000) [TFile ''Inbox/a.md'' ''a.md'' (Some ''Inbox'')]
        (path (TFile ''Inbox/a.md'' ''a.md'' (Some ''Inbox''))) = Some \<lparr>mtime = 0\<rparr>
   \<and> spec_parseDays ''7days'' = None
   \<and> \<not> spec_fileAge (dateNow (listHost ClickYes 691200000) [TFile ''Inbox/a.md'' ''a.md'' (Some ''Inbox'')]) 0 ''7days''
   \<and> evaluateCondition (listHost ClickYes 691200000) [TFile ''Inbox/a.md'' ''a.md'' (Some ''Inbox'')]
        (TFile ''Inbox/a.md'' ''a.md'' (Some ''Inbox'')) \<lparr>type = fileAge, value = ''7days''\<rparr>
      = (True, [])"
  by (simp add: listHost_def spec_parseDays_def spec_fileAge_def evaluateCondition_def
      parseInt_def isWhiteSpace_def isRadixDigit_def digitValue_def digitsToInteger_def toNumber_def)

text \<open>
  C5, amended. Take a file whose last-modified time is known, and let the clock, that
  time, their difference and the integer that \<open>parseInt\<close> reads at the start of the
  value (white space, one sign, then digits; what follows is ignored) be safe integers, of
  magnitude at most \<open>2 ^ 53 - 1\<close>. Then a \<open>fileAge\<close> condition is true exactly
  when the age in days, a real number, is at least that integer. When \<open>parseInt\<close>
  reads no integer, as for \<open>abc\<close>, the condition is false for every file. On a value
  that is a plain run of decimal digits and denotes a safe integer, \<open>parseInt\<close> reads
  the number the specification means.
\<close>

theorem fileAge_condition:
  assumes "type condition = fileAge"
  shows "(\<forall>stats ageInDays.
            stat h v (path file) = Some stats \<longrightarrow>
            parseInt (value condition) = Some ageInDays \<longrightarrow>
            isSafeInteger (dateNow h v) \<longrightarrow>
            isSafeInteger (mtime stats) \<longrightarrow>
            isSafeInteger (dateNow h v - mtime stats) \<longrightarrow>
            isSafeInteger ageInDays \<longrightarrow>
            fst (evaluateCondition h v file condition) =
              (real_of_int (dateNow h v - mtime stats) / (1000 * 60 * 60 * 24)
                 \<ge> real_of_int ageInDays))
       \<and> (parseInt (value condition) = None \<longrightarrow>
            evaluateCondition h v file condition = (False, []))
       \<and> (\<forall>days. spec_parseDays (value condition) = Some days \<longrightarrow>
            isSafeInteger (int days) \<longrightarrow>
            parseInt (value condition) = Some (int days))
       \<and> parseInt ''abc'' = None"
proof -
  have abc: "parseInt ''abc'' = None"
    by (simp add: parseInt_def isWhiteSpace_def isRadixDigit_def digitValue_def)
  have agree: "\<forall>days. spec_parseDays (value condition) = Some days \<longrightarrow>
            isSafeInteger (int days) \<longrightarrow>
            parseInt (value condition) = Some (int days)"
    by (auto simp: spec_parseDays_def parseInt_digits toNumber_safe split: if_splits)
  have verdict: "\<forall>stats ageInDays.
            stat h v (path file) = Some stats \<longrightarrow>
            parseInt (value condition) = Some ageInDays \<longrightarrow>
            fst (evaluateCondition h v file condition) =
              (real_of_int (dateNow h v - mtime stats) / (1000 * 60 * 60 * 24)
                 \<ge> real_of_int ageInDays)"
    using assms by (simp add: evaluateCondition_def)
  have nan: "parseInt (value condition) = None \<longrightarrow>
            evaluateCondition h v file condition = (False, [])"
    using assms by (simp add: evaluateCondition_def)
  show ?thesis
    using abc agree verdict nan by blast
qed

theorem fileAge_condition_witness:
  "type \<lparr>type = fileAge, value = ''7''\<rparr> = fileAge
   \<and> stat (listHost ClickYes 691200000) [TFile ''Inbox/a.md'' ''a.md'' (Some ''Inbox'')]
        (path (TFile ''Inbox/a.md'' ''a.md'' (Some ''Inbox''))) = Some \<lparr>mtime = 0\<rparr>
   \<and> parseInt (value \<lparr>type = fileAge, value = ''7''\<rparr>) = Some 7
   \<and> isSafeInteger (dateNow (listHost ClickYes 691200000)
         [TFile ''Inbox/a.md'' ''a.md'' (Some ''Inbox'')])
   \<and> isSafeInteger (mtime \<lparr>mtime = 0\<rparr>)
   \<and> isSafeInteger (dateNow (listHost ClickYes 691200000)
         [TFile ''Inbox/a.md'' ''a.md'' (Some ''Inbox'')] - mtime \<lparr>mtime = 0\<rparr>)
   \<and> isSafeInteger 7
   \<and> spec_parseDays (value \<lparr>type = fileAge, value = ''7''\<rparr>) = Some 7
   \<and> fst (evaluateCondition (listHost ClickYes 691200000) [TFile ''Inbox/a.md'' ''a.md'' (Some ''Inbox'')]
        (TFile ''Inbox/a.md'' ''a.md'' (Some ''Inbox'')) \<lparr>type = fileAge, value = ''7''\<rparr>)
   \<and> parseInt (value \<lparr>type = fileAge, value = ''abc''\<rparr>) = None
   \<and> evaluateCondition (listHost ClickYes 691200000) [TFile ''Inbox/a.md'' ''a.md'' (Some ''Inbox'')]
        (TFile ''Inbox/a.md'' ''a.md'' (Some ''Inbox'')) \<lparr>type = fileAge, value = ''abc''\<rparr>
      = (False, [])"
proof -
  let ?f = "TFile ''Inbox/a.md'' ''a.md'' (Some ''Inbox'')"
  let ?h = "listHost ClickYes 691200000"
  let ?c = "\<lparr>type = fileAge, value = ''7''\<rparr>"
  have st: "stat ?h [?f] (path ?f) = Some \<lparr>mtime = 0\<rparr>"
    by (simp add: listHost_def)
  have now: "dateNow ?h [?f] = 691200000"
    by (simp add: listHost_def)
  have sp: "spec_parseDays (value ?c) = Some 7"
    by (simp add: spec_parseDays_def isRadixDigit_def digitValue_def digitsToInteger_def)
  have safe: "isSafeInteger (dateNow ?h [?f])" "isSafeInteger (mtime \<lparr>mtime = 0\<rparr>)"
    "isSafeInteger (dateNow ?h [?f] - mtime \<lparr>mtime = 0\<rparr>)" "isSafeInteger 7"
    "isSafeInteger (int 7)"
    by (simp_all add: isSafeInteger_def now)
  note numeric = fileAge_condition [of ?c ?h "[?f]" ?f]
  note other = fileAge_condition [of "\<lparr>type = fileAge, value = ''abc''\<rparr>" ?h "[?f]" ?f]
  from numeric sp safe(5) have pi: "parseInt (value ?c) = Some 7"
    by simp
  from numeric st pi safe have "fst (evaluateCondition ?h [?f] ?f ?c) =
      (real_of_int (dateNow ?h [?f] - mtime \<lparr>mtime = 0\<rparr>) / (1000 * 60 * 60 * 24)
         \<ge> real_of_int 7)"
    by simp
  then have verdict: "fst (evaluateCondition ?h [?f] ?f ?c)"
    by (simp add: now)
  from other have nan: "parseInt (value \<lparr>type = fileAge, value = ''abc''\<rparr>) = None"
    "evaluateCondition ?h [?f] ?f \<lparr>type = fileAge, value = ''abc''\<rparr> = (False, [])"
    by simp_all
  show ?thesis
    using st pi safe(1-4) sp verdict nan by simp
qed

text \<open>
  C10. A \<open>fileAge\<close> condition with a numeric value is false when the host's
  \<open>stat\<close> returns \<open>null\<close> for the file's path: the file does not match, nothing is
  thrown and nothing is written to the console.
\<close>

theorem fileAge_without_stat:
  assumes "type condition = fileAge"
    and "parseInt (value condition) = Some ageInDays"
    and "stat h v (path file) = None"
  shows "evaluateCondition h v file condition = (False, [])"
  using assms by (simp add: evaluateCondition_def)

theorem fileAge_without_stat_witness:
  "type \<lparr>type = fileAge, value = ''7''\<rparr> = fileAge
   \<and> parseInt (value \<lparr>type = fileAge, value = ''7''\<rparr>) = Some 7
   \<and> stat (listHost ClickYes 864000000) [] (path (TFile ''Inbox/a.md'' ''a.md'' (Some ''Inbox''))) = None
   \<and> evaluateCondition (listHost ClickYes 864000000) [] (TFile ''Inbox/a.md'' ''a.md'' (Some ''Inbox''))
        \<lparr>type = fileAge, value = ''7''\<rparr> = (False, [])"
proof -
  have a: "type \<lparr>type = fileAge, value = ''7''\<rparr> = fileAge" by simp
  have b: "parseInt (value \<lparr>type = fileAge, value = ''7''\<rparr>) = Some 7"
    by (simp add: parseInt_def isWhiteSpace_def isRadixDigit_def digitValue_def digitsToInteger_def toNumber_def)
  have c: "stat (listHost ClickYes 864000000) []
             (path (TFile ''Inbox/a.md'' ''a.md'' (Some ''Inbox''))) = None"
    by (simp add: listHost_def)
  show ?thesis
    using a b c fileAge_without_stat [OF a b c] by simp
qed

text \<open>
  C6. A \<open>regexPattern\<close> condition whose value the pattern engine rejects evaluates to
  false: the exception of \<open>new RegExp\<close> is caught, one line goes to the console, and
  the function returns a value. When the engine accepts the pattern, the verdict is the
  result of testing it on the file's name.
\<close>

theorem regexPattern_condition:
  assumes "type condition = regexPattern"
  shows "(newRegExp h (value condition) = None \<longrightarrow>
            evaluateCondition h v file condition =
              (False, [''Invalid regex pattern in auto-archive rule: '' @ value condition]))
       \<and> (\<forall>regex. newRegExp h (value condition) = Some regex \<longrightarrow>
            evaluateCondition h v file condition = (regex (name file), []))"
  using assms by (simp add: evaluateCondition_def)

theorem regexPattern_condition_witness:
  "type \<lparr>type = regexPattern, value = ''[''\<rparr> = regexPattern
   \<and> newRegExp (listHost ClickYes 0) (value \<lparr>type = regexPattern, value = ''[''\<rparr>) = None
   \<and> evaluateCondition (listHost ClickYes 0) [] (TFile ''Inbox/a.md'' ''a.md'' (Some ''Inbox''))
        \<lparr>type = regexPattern, value = ''[''\<rparr>
      = (False, [''Invalid regex pattern in auto-archive rule: [''])
   \<and> newRegExp (listHost ClickYes 0) (value \<lparr>type = regexPattern, value = ''.md''\<rparr>)
      = Some (occursIn ''.md'')
   \<and> evaluateCondition (listHost ClickYes 0) [] (TFile ''Inbox/a.md'' ''a.md'' (Some ''Inbox''))
        \<lparr>type = regexPattern, value = ''.md''\<rparr> = (True, [])"
proof -
  have a: "newRegExp (listHost ClickYes 0) (value \<lparr>type = regexPattern, value = ''[''\<rparr>) = None"
    by (simp add: listHost_def)
  have b: "newRegExp (listHost ClickYes 0) (value \<lparr>type = regexPattern, value = ''.md''\<rparr>)
      = Some (occursIn ''.md'')"
    by (simp add: listHost_def)
  show ?thesis
    using a b
      regexPattern_condition [of "\<lparr>type = regexPattern, value = ''[''\<rparr>" "listHost ClickYes 0" "[]"
        "TFile ''Inbox/a.md'' ''a.md'' (Some ''Inbox'')"]
      regexPattern_condition [of "\<lparr>type = regexPattern, value = ''.md''\<rparr>" "listHost ClickYes 0" "[]"
        "TFile ''Inbox/a.md'' ''a.md'' (Some ''Inbox'')"]
    by simp
qed

section \<open>Archiving and unarchiving\<close>

lemma collapseSeparators_append:
  assumes "noDuplicateSeparators xs" "xs \<noteq> []" "last xs \<noteq> CHR ''/''"
  shows "collapseSeparators (xs @ ys) = xs @ collapseSeparators ys"
  using assms
proof (induction xs rule: noDuplicateSeparators.induct)
  case 1
  then show ?case by simp
next
  case (2 c)
  then show ?case by (cases ys) (auto simp: isSeparator_def)
next
  case (3 c d cs)
  then show ?case by (auto simp: isSeparator_def noDuplicateSeparators_Cons)
qed

lemma stripSlashes_trailing:
  assumes "r \<noteq> []" "hd r \<noteq> CHR ''/''" "last r \<noteq> CHR ''/''"
  shows "stripSlashes (r @ ''/'') = r"
proof -
  from assms have front: "dropWhile (\<lambda>c. c = CHR ''/'') (r @ ''/'') = r @ ''/''"
    by (cases r) auto
  from assms have "hd (rev r) \<noteq> CHR ''/''"
    by (simp add: hd_rev)
  with assms have behind: "dropWhile (\<lambda>c. c = CHR ''/'') (rev r) = rev r"
    by (cases "rev r") auto
  show ?thesis
    unfolding stripSlashes_def front by (simp add: behind)
qed

lemma normalizePath_trailing_root:
  assumes "normalized r"
  shows "normalizePath (r @ ''//'') = r"
proof -
  from assms have "collapseSeparators (r @ ''//'') = r @ ''/''"
    by (simp add: normalized_def collapseSeparators_append isSeparator_def)
  moreover from assms have "stripSlashes (r @ ''/'') = r"
    by (simp add: normalized_def stripSlashes_trailing)
  ultimately show ?thesis
    using assms by (simp add: normalizePath_def normalized_def)
qed

lemma normalized_join_Cons: "normalized r \<Longrightarrow> normalized p \<Longrightarrow> normalized (r @ CHR ''/'' # p)"
  using normalized_join[of r p] by simp

lemma normalized_split:
  assumes "normalized (p @ ''/'' @ n)"
  shows "normalized p" "normalized n"
  using assms
  by (auto simp: normalized_def noDuplicateSeparators_append noDuplicateSeparators_Cons
      hd_append split: if_splits)

lemma moveFileToArchive_destination:
  assumes "normalized (archiveFolder settings)" "normalized (path file)" "insideParent file"
  shows "moveFileToArchive_destinationFilePath settings file
           = archiveFolder settings @ ''/'' @ path file"
proof -
  from assms(3) obtain p where p: "parent file = Some p"
    and pth: "path file = (if p = ''/'' then name file else p @ ''/'' @ name file)"
    by (auto simp: insideParent_def split: option.splits)
  show ?thesis
  proof (cases "p = ''/''")
    case True
    with pth have "path file = name file" by simp
    moreover have "moveFileToArchive_destinationPath settings file = archiveFolder settings"
      using True p assms(1)
      by (simp add: moveFileToArchive_destinationPath_def parentPathText_def
          normalizePath_trailing_root)
    ultimately show ?thesis
      using assms(1,2)
      by (simp add: moveFileToArchive_destinationFilePath_def normalizePath_fixed normalized_join_Cons)
  next
    case False
    with pth have eq: "path file = p @ ''/'' @ name file" by simp
    with assms(2) have np: "normalized p" and nn: "normalized (name file)"
      using normalized_split[of p "name file"] by simp_all
    have "moveFileToArchive_destinationPath settings file = archiveFolder settings @ ''/'' @ p"
      using p assms(1) np
      by (simp add: moveFileToArchive_destinationPath_def parentPathText_def
          normalizePath_fixed normalized_join_Cons)
    moreover have "normalized (archiveFolder settings @ CHR ''/'' # p @ CHR ''/'' # name file)"
      using normalized_join_Cons[OF assms(1) assms(2)] eq by simp
    ultimately show ?thesis
      using eq
      by (simp add: moveFileToArchive_destinationFilePath_def normalizePath_fixed)
  qed
qed

text \<open>
  C2, as the claim states it, fails for an archive root that is not itself normalized.
  The settings accept the root \<open>Archive/\<close>. With it the item \<open>Notes/todo.md\<close> is
  not archived, its destination is \<open>Archive/Notes/todo.md\<close>, which is not the root,
  a slash and the path, and stripping the root's length plus one from that destination
  gives \<open>otes/todo.md\<close>.
\<close>

theorem archive_round_trip_counterexample:
  "validateArchiveFolderName ''Archive/''
   \<and> setArchiveFolder DEFAULT_SETTINGS ''Archive/'' = (True, DEFAULT_SETTINGS\<lparr>archiveFolder := ''Archive/''\<rparr>)
   \<and> normalized (path (TFile ''Notes/todo.md'' ''todo.md'' (Some ''Notes'')))
   \<and> \<not> isFileArchived (DEFAULT_SETTINGS\<lparr>archiveFolder := ''Archive/''\<rparr>)
         (TFile ''Notes/todo.md'' ''todo.md'' (Some ''Notes''))
   \<and> moveFileToArchive_destinationFilePath (DEFAULT_SETTINGS\<lparr>archiveFolder := ''Archive/''\<rparr>)
         (TFile ''Notes/todo.md'' ''todo.md'' (Some ''Notes'')) = ''Archive/Notes/todo.md''
   \<and> ''Archive/Notes/todo.md''
       \<noteq> archiveFolder (DEFAULT_SETTINGS\<lparr>archiveFolder := ''Archive/''\<rparr>) @ ''/''
           @ path (TFile ''Notes/todo.md'' ''todo.md'' (Some ''Notes''))
   \<and> isFileArchived (DEFAULT_SETTINGS\<lparr>archiveFolder := ''Archive/''\<rparr>)
         (TFile ''Archive/Notes/todo.md'' ''todo.md'' (Some ''Archive/Notes''))
   \<and> originalPath (DEFAULT_SETTINGS\<lparr>archiveFolder := ''Archive/''\<rparr>)
         (TFile ''Archive/Notes/todo.md'' ''todo.md'' (Some ''Archive/Notes'')) = ''otes/todo.md''
   \<and> ''otes/todo.md'' \<noteq> path (TFile ''Notes/todo.md'' ''todo.md'' (Some ''Notes''))"
  by (simp add: validateArchiveFolderName_def setArchiveFolder_def DEFAULT_SETTINGS_def
      normalized_def isFileArchived_def moveFileToArchive_destinationFilePath_def
      moveFileToArchive_destinationPath_def parentPathText_def normalizePath_def
      stripSlashes_def isSeparator_def originalPath_def)

text \<open>
  C2, amended. For every archive root that is normalized (not empty, no backslash, no
  slash at either end, no two slashes in a row) and every item with a normalized path that
  the host keeps under its parent, \<open>archiveFile\<close> and \<open>moveFileToArchive\<close> compute
  the destination root, slash, path; the item at that destination is archived, and
  stripping the root's length plus one from its path gives back the original path, which
  \<open>moveFileOutOfArchive\<close> passes on unchanged.
\<close>

theorem archive_round_trip:
  assumes "normalized (archiveFolder settings)"
    and "normalized (path file)"
    and "insideParent file"
  shows "archiveFile_destinationFilePath settings file = archiveFolder settings @ ''/'' @ path file
       \<and> moveFileToArchive_destinationFilePath settings file
           = archiveFolder settings @ ''/'' @ path file
       \<and> (\<forall>archived. path archived = moveFileToArchive_destinationFilePath settings file \<longrightarrow>
             isFileArchived settings archived
             \<and> originalPath settings archived = path file
             \<and> normalizePath (originalPath settings archived) = path file)"
proof -
  have one: "archiveFile_destinationFilePath settings file
               = archiveFolder settings @ ''/'' @ path file"
    using assms(1,2)
    by (simp add: archiveFile_destinationFilePath_def normalizePath_fixed normalized_join_Cons)
  have two: "moveFileToArchive_destinationFilePath settings file
               = archiveFolder settings @ ''/'' @ path file"
    using assms by (rule moveFileToArchive_destination)
  have three: "isFileArchived settings archived
             \<and> originalPath settings archived = path file
             \<and> normalizePath (originalPath settings archived) = path file"
    if "path archived = moveFileToArchive_destinationFilePath settings file" for archived
    using that assms(2) unfolding two
    by (simp add: isFileArchived_def originalPath_def normalizePath_fixed)
  show ?thesis
    using one two three by blast
qed

theorem archive_round_trip_witness:
  "normalized (archiveFolder DEFAULT_SETTINGS)
   \<and> normalized (path (TFile ''Notes/todo.md'' ''todo.md'' (Some ''Notes'')))
   \<and> insideParent (TFile ''Notes/todo.md'' ''todo.md'' (Some ''Notes''))
   \<and> moveFileToArchive_destinationFilePath DEFAULT_SETTINGS
        (TFile ''Notes/todo.md'' ''todo.md'' (Some ''Notes'')) = ''Archive/Notes/todo.md''
   \<and> path (TFile ''Archive/Notes/todo.md'' ''todo.md'' (Some ''Archive/Notes''))
        = moveFileToArchive_destinationFilePath DEFAULT_SETTINGS
            (TFile ''Notes/todo.md'' ''todo.md'' (Some ''Notes''))
   \<and> originalPath DEFAULT_SETTINGS
        (TFile ''Archive/Notes/todo.md'' ''todo.md'' (Some ''Archive/Notes'')) = ''Notes/todo.md''
   \<and> normalizePath (originalPath DEFAULT_SETTINGS
        (TFile ''Archive/Notes/todo.md'' ''todo.md'' (Some ''Archive/Notes''))) = ''Notes/todo.md''"
proof -
  let ?f = "TFile ''Notes/todo.md'' ''todo.md'' (Some ''Notes'')"
  let ?g = "TFile ''Archive/Notes/todo.md'' ''todo.md'' (Some ''Archive/Notes'')"
  have a: "normalized (archiveFolder DEFAULT_SETTINGS)"
    by (simp add: normalized_def DEFAULT_SETTINGS_def)
  have b: "normalized (path ?f)"
    by (simp add: normalized_def)
  have c: "insideParent ?f"
    by (simp add: insideParent_def)
  have r: "archiveFolder DEFAULT_SETTINGS = ''Archive''"
    by (simp add: DEFAULT_SETTINGS_def)
  note trip = archive_round_trip [OF a b c]
  from trip r have d: "moveFileToArchive_destinationFilePath DEFAULT_SETTINGS ?f
                         = ''Archive/Notes/todo.md''"
    by simp
  from d have f: "path ?g = moveFileToArchive_destinationFilePath DEFAULT_SETTINGS ?f"
    by simp
  from trip f have e: "originalPath DEFAULT_SETTINGS ?g = ''Notes/todo.md''"
    "normalizePath (originalPath DEFAULT_SETTINGS ?g) = ''Notes/todo.md''"
    by (auto dest: spec[of _ ?g])
  show ?thesis
    using a b c d f e by blast
qed

text \<open>
  The two scenarios of the specification, run on the concrete host: archiving
  \<open>Notes/todo.md\<close> and unarchiving it again, and replacing an item that already
  occupies the destination.
\<close>

lemmas run_defs = archiveFile_def unarchiveFile_def moveFileToArchive_def moveFileOutOfArchive_def
  archiveFile_destinationFilePath_def moveFileToArchive_destinationPath_def
  moveFileToArchive_destinationFilePath_def parentPathText_def originalPath_def
  originalParentPath_def lastIndexOf_def isFileArchived_def DEFAULT_SETTINGS_def listHost_def
  normalizePath_def stripSlashes_def isSeparator_def parentOfPath_def baseName_def
  SimpleArchiverPromptModal_def Let_def

lemma archive_then_unarchive_example:
  "archiveFile (listHost ClickYes 0) DEFAULT_SETTINGS
         [TFile ''Notes/todo.md'' ''todo.md'' (Some ''Notes'')]
         (TFile ''Notes/todo.md'' ''todo.md'' (Some ''Notes''))
   = (Returned \<lparr>success = True, message = ''todo.md archived successfully''\<rparr>,
      [TFile ''Archive/Notes/todo.md'' ''todo.md'' (Some ''Archive/Notes''),
       TFolder ''Archive/Notes'' ''Notes'' (Some ''Archive'') []])"
  "unarchiveFile (listHost ClickYes 0) DEFAULT_SETTINGS
         [TFile ''Archive/Notes/todo.md'' ''todo.md'' (Some ''Archive/Notes''),
          TFolder ''Archive/Notes'' ''Notes'' (Some ''Archive'') []]
         (TFile ''Archive/Notes/todo.md'' ''todo.md'' (Some ''Archive/Notes''))
   = (Returned \<lparr>success = True, message = ''todo.md unarchived successfully''\<rparr>,
      [TFile ''Notes/todo.md'' ''todo.md'' (Some ''Notes''),
       TFolder ''Archive/Notes'' ''Notes'' (Some ''Archive'') [],
       TFolder ''Notes'' ''Notes'' (Some ''/'') []])"
  by (simp_all add: run_defs)

lemma replace_example:
  "archiveFile (listHost ClickYes 0) DEFAULT_SETTINGS
         [TFile ''a.md'' ''a.md'' (Some ''/''), TFile ''Archive/a.md'' ''a.md'' (Some ''Archive'')]
         (TFile ''a.md'' ''a.md'' (Some ''/''))
   = (Returned \<lparr>success = True, message = ''a.md archived successfully''\<rparr>,
      [TFile ''Archive/a.md'' ''a.md'' (Some ''Archive''),
       TFolder ''Archive'' ''Archive'' (Some ''/'') []])"
  by (simp add: run_defs)

text \<open>
  C7. When the item is not archived, its destination in the archive is occupied and the
  user answers the prompt with the \<open>Cancel\<close> button, \<open>archiveFile\<close> returns the
  failed result \<open>Archive operation cancelled\<close> and the vault is the one it started from:
  no storage operation of the host is called.
\<close>

theorem archiveFile_cancelled:
  assumes "\<not> isFileArchived settings file"
    and "getAbstractFileByPath h v (archiveFile_destinationFilePath settings file) = Some existingItem"
    and "promptChoice h v ''Replace archived item?''
           (''An item called \"'' @ name file @
            ''\" already exists in the destination folder in the archive. Would you like to replace it?'')
         = ClickNo"
  shows "archiveFile h settings v file =
           (Returned \<lparr>success = False, message = ''Archive operation cancelled''\<rparr>, v)"
  using assms by (simp add: archiveFile_def SimpleArchiverPromptModal_def)

theorem archiveFile_cancelled_witness:
  "\<not> isFileArchived DEFAULT_SETTINGS (TFile ''a.md'' ''a.md'' (Some ''/''))
   \<and> getAbstractFileByPath (listHost ClickNo 0)
         [TFile ''a.md'' ''a.md'' (Some ''/''), TFile ''Archive/a.md'' ''a.md'' (Some ''Archive'')]
         (archiveFile_destinationFilePath DEFAULT_SETTINGS (TFile ''a.md'' ''a.md'' (Some ''/'')))
       = Some (TFile ''Archive/a.md'' ''a.md'' (Some ''Archive''))
   \<and> archiveFile (listHost ClickNo 0) DEFAULT_SETTINGS
         [TFile ''a.md'' ''a.md'' (Some ''/''), TFile ''Archive/a.md'' ''a.md'' (Some ''Archive'')]
         (TFile ''a.md'' ''a.md'' (Some ''/''))
       = (Returned \<lparr>success = False, message = ''Archive operation cancelled''\<rparr>,
          [TFile ''a.md'' ''a.md'' (Some ''/''), TFile ''Archive/a.md'' ''a.md'' (Some ''Archive'')])"
proof -
  let ?f = "TFile ''a.md'' ''a.md'' (Some ''/'')"
  let ?v = "[?f, TFile ''Archive/a.md'' ''a.md'' (Some ''Archive'')]"
  have a: "\<not> isFileArchived DEFAULT_SETTINGS ?f"
    by (simp add: isFileArchived_def DEFAULT_SETTINGS_def)
  have b: "getAbstractFileByPath (listHost ClickNo 0) ?v
             (archiveFile_destinationFilePath DEFAULT_SETTINGS ?f)
           = Some (TFile ''Archive/a.md'' ''a.md'' (Some ''Archive''))"
    by (simp add: listHost_def archiveFile_destinationFilePath_def DEFAULT_SETTINGS_def
        normalizePath_def stripSlashes_def isSeparator_def)
  have c: "promptChoice (listHost ClickNo 0) ?v ''Replace archived item?''
           (''An item called \"'' @ name ?f @
            ''\" already exists in the destination folder in the archive. Would you like to replace it?'')
         = ClickNo"
    by (simp add: listHost_def)
  show ?thesis
    using a b archiveFile_cancelled [OF a b c] by simp
qed

text \<open>
  What the two guards do. \<open>archiveFile\<close> on an item inside the archive, in the
  path-segment sense of the specification, returns at once the failed result
  \<open>Item is already archived\<close> and leaves the vault as it was. \<open>unarchiveFile\<close>
  returns at once the failed result \<open>Item is not archived\<close> when the string-prefix
  test of \<open>isFileArchived\<close> fails.
\<close>

lemma archiveFile_already_archived:
  assumes "spec_isArchived (path file) (archiveFolder settings)"
  shows "archiveFile h settings v file =
           (Returned \<lparr>success = False, message = ''Item is already archived''\<rparr>, v)"
  using spec_isArchived_isFileArchived[OF assms] by (simp add: archiveFile_def)

lemma unarchiveFile_guard:
  assumes "\<not> isFileArchived settings file"
  shows "unarchiveFile h settings v file =
           (Returned \<lparr>success = False, message = ''Item is not archived''\<rparr>, v)"
  using assms by (simp add: unarchiveFile_def)

text \<open>
  C8. The claim: \<open>archiveFile\<close> on an item that is already archived returns at once
  a failed result that says so, without a storage operation, and \<open>unarchiveFile\<close> on
  an item that is not archived returns at once a failed result that says it is not
  archived. The second half fails on the code: \<open>ArchiveOld/b.md\<close> is not inside the
  archive \<open>Archive\<close>, yet \<open>unarchiveFile\<close> takes it for archived, creates the
  folder \<open>ld\<close> and moves the file to \<open>ld/b.md\<close>, with a result of success.
\<close>

theorem unarchiveFile_outside_archive:
  "\<not> spec_isArchived (path (TFile ''ArchiveOld/b.md'' ''b.md'' (Some ''ArchiveOld'')))
       (archiveFolder DEFAULT_SETTINGS)
   \<and> unarchiveFile (listHost ClickYes 0) DEFAULT_SETTINGS
         [TFile ''ArchiveOld/b.md'' ''b.md'' (Some ''ArchiveOld'')]
         (TFile ''ArchiveOld/b.md'' ''b.md'' (Some ''ArchiveOld''))
       = (Returned \<lparr>success = True, message = ''b.md unarchived successfully''\<rparr>,
          [TFile ''ld/b.md'' ''b.md'' (Some ''ld''), TFolder ''ld'' ''ld'' (Some ''/'') []])
   \<and> unarchiveFile (listHost ClickYes 0) DEFAULT_SETTINGS
         [TFile ''ArchiveOld/b.md'' ''b.md'' (Some ''ArchiveOld'')]
         (TFile ''ArchiveOld/b.md'' ''b.md'' (Some ''ArchiveOld''))
       \<noteq> (Returned \<lparr>success = False, message = ''Item is not archived''\<rparr>,
          [TFile ''ArchiveOld/b.md'' ''b.md'' (Some ''ArchiveOld'')])"
  by (simp add: spec_isArchived_def run_defs)

section \<open>The auto-archive sweep\<close>






end
